theory Spec2Isabelle
  imports Main "HOL-Library.Word"
begin

section \<open>The network primitives of fortio (package fnet)\<close>

text \<open>
  A shallow embedding of \<^verbatim>\<open>fnet/network.go\<close>: the payload utilities, the
  destination resolver with its one-entry round-robin DNS cache, the \<^verbatim>\<open>Copy\<close>
  loop, the netcat bridge and the proxy's connection handler. What the Go code obtains
  from the operating system or the standard library (port and host lookups, the IP
  parser, dialing, the contents of files, the results of reads and writes) is a parameter
  of the model.
\<close>

subsection \<open>Values shared by all parts\<close>

type_synonym byte = "8 word"

text \<open>A Go \<^verbatim>\<open>error\<close> value: what \<^verbatim>\<open>os.IsTimeout\<close> and
  \<^verbatim>\<open>errors.Is(_, io.EOF)\<close> answer about it, and its text.\<close>

datatype error = GoError (IsTimeout: bool) (IsEOF: bool) (Msg: string)

definition EOF :: error where
  "EOF = GoError False True ''EOF''"

definition ErrShortWrite :: error where
  "ErrShortWrite = GoError False False ''short write''"

definition ErrNilDestination :: error where
  "ErrNilDestination = GoError False False ''nil destination''"

text \<open>Run-time panics of the Go code that the model keeps as results.\<close>

datatype panic = DivideByZero | IndexOutOfRange | SliceBoundsOutOfRange

datatype failure = Failed error | Panicked panic

text \<open>The severity of a log call: \<^verbatim>\<open>Debugf\<close>, \<^verbatim>\<open>LogVf\<close>,
  \<^verbatim>\<open>Infof\<close>, \<^verbatim>\<open>Warnf\<close>, \<^verbatim>\<open>Errf\<close>, \<^verbatim>\<open>Critf\<close>.\<close>

datatype log_level = LogDebug | LogVerbose | LogInfo | LogWarning | LogError | LogCritical

subsection \<open>Payload utilities\<close>

text \<open>The package variables \<^verbatim>\<open>MaxPayloadSize\<close> and \<^verbatim>\<open>Payload\<close>.\<close>

record payload_state =
  MaxPayloadSize :: int
  Payload :: "byte list"

text \<open>\<^verbatim>\<open>ChangeMaxPayloadSize\<close>: the new maximum (never negative) and a fresh buffer
  of that length; \<open>rnd i\<close> is byte \<open>i\<close> that \<^verbatim>\<open>rand.Read\<close> delivers.\<close>

definition ChangeMaxPayloadSize :: "(nat \<Rightarrow> byte) \<Rightarrow> int \<Rightarrow> payload_state" where
  "ChangeMaxPayloadSize rnd newMaxPayloadSize =
     (let m = (if newMaxPayloadSize \<ge> 0 then newMaxPayloadSize else 0)
      in \<lparr>MaxPayloadSize = m, Payload = map rnd [0..<nat m]\<rparr>)"

text \<open>\<^verbatim>\<open>ValidatePayloadSize\<close> updates the size through a pointer; the model returns
  the new size and the warnings logged.\<close>

definition ValidatePayloadSize :: "payload_state \<Rightarrow> int \<Rightarrow> int \<times> log_level list" where
  "ValidatePayloadSize st sz =
     (if sz > MaxPayloadSize st \<and> sz > 0 then (MaxPayloadSize st, [LogWarning])
      else if sz < 0 then (0, [LogWarning])
      else (sz, []))"

text \<open>\<^verbatim>\<open>GenerateRandomPayload\<close>: the slice expression \<^verbatim>\<open>Payload[:payloadSize]\<close>
  panics when the bound is negative or beyond the buffer.\<close>

definition GenerateRandomPayload :: "payload_state \<Rightarrow> int \<Rightarrow> panic + byte list" where
  "GenerateRandomPayload st payloadSize =
     (let n = fst (ValidatePayloadSize st payloadSize)
      in if 0 \<le> n \<and> n \<le> int (length (Payload st)) then Inr (take (nat n) (Payload st))
         else Inl SliceBoundsOutOfRange)"

text \<open>\<^verbatim>\<open>ReadFileForPayload\<close>; \<open>fs\<close> is \<^verbatim>\<open>ioutil.ReadFile\<close>.\<close>

definition ReadFileForPayload :: "(string \<Rightarrow> error + byte list) \<Rightarrow> string \<Rightarrow> error + byte list" where
  "ReadFileForPayload fs payloadFilePath =
     (case fs payloadFilePath of Inl err \<Rightarrow> Inl err | Inr data \<Rightarrow> Inr data)"

text \<open>\<^verbatim>\<open>GeneratePayload\<close>; a nil slice is the empty list, the literal string is given
  as its bytes.\<close>

definition GeneratePayload ::
  "payload_state \<Rightarrow> (string \<Rightarrow> error + byte list) \<Rightarrow> string \<Rightarrow> int \<Rightarrow> byte list \<Rightarrow> panic + byte list" where
  "GeneratePayload st fs payloadFilePath payloadSize payload =
     (if length payloadFilePath > 0 then
        (case ReadFileForPayload fs payloadFilePath of
           Inl err \<Rightarrow> Inr []
         | Inr p \<Rightarrow> Inr p)
      else if payloadSize > 0 then GenerateRandomPayload st payloadSize
      else Inr payload)"

subsection \<open>String helpers of package \<^verbatim>\<open>strings\<close>\<close>

definition HasPrefix :: "string \<Rightarrow> string \<Rightarrow> bool" where
  "HasPrefix s pre = (take (length pre) s = pre)"

definition HasSuffix :: "string \<Rightarrow> string \<Rightarrow> bool" where
  "HasSuffix s suf = (length suf \<le> length s \<and> drop (length s - length suf) s = suf)"

definition TrimSuffix :: "string \<Rightarrow> string \<Rightarrow> string" where
  "TrimSuffix s suf = (if HasSuffix s suf then take (length s - length suf) s else s)"

text \<open>\<^verbatim>\<open>strings.LastIndex\<close> for a one-byte separator; \<open>None\<close> is the result -1.\<close>

fun LastIndex :: "string \<Rightarrow> char \<Rightarrow> nat option" where
  "LastIndex [] ch = None"
| "LastIndex (x # xs) ch =
     (case LastIndex xs ch of
        Some i \<Rightarrow> Some (Suc i)
      | None \<Rightarrow> if x = ch then Some 0 else None)"

subsection \<open>Destination resolution and the DNS cache\<close>

type_synonym ip = "byte list"

record HostPortAddr =
  IP :: ip
  Port :: int

text \<open>The variables \<^verbatim>\<open>dnsHost\<close>, \<^verbatim>\<open>dnsAddrs\<close> and \<^verbatim>\<open>dnsRoundRobin\<close>
  (a \<^verbatim>\<open>uint32\<close>) that \<^verbatim>\<open>dnsMutex\<close> guards.\<close>

record dns_cache =
  dnsHost :: string
  dnsAddrs :: "ip list"
  dnsRoundRobin :: "32 word"

text \<open>The state at process start: the zero values of the three variables.\<close>

definition initial_cache :: dns_cache where
  "initial_cache = \<lparr>dnsHost = [], dnsAddrs = [], dnsRoundRobin = 0\<rparr>"

text \<open>
  What a resolution does outside its own variables: calls of \<^verbatim>\<open>net.LookupPort\<close>
  and of the system resolver \<^verbatim>\<open>LookupIP\<close>, and operations on \<^verbatim>\<open>dnsMutex\<close>.
\<close>

datatype resolver_event = PortLookup string string | HostLookup string string | Lock | Unlock

text \<open>
  The surroundings of a resolution: the standard library's port lookup, IP parser and
  host lookup, the two flags (read on every call), \<^verbatim>\<open>rand.Intn\<close>, and what the
  other goroutines do to the cache while this one waits for the host lookup without
  holding the lock.
\<close>

record resolver_env =
  LookupPort :: "string \<Rightarrow> string \<Rightarrow> error + int"
  ParseIP :: "string \<Rightarrow> ip option"
  LookupIP :: "string \<Rightarrow> string \<Rightarrow> error + ip list"
  FlagResolveIPType :: string
  FlagResolveMethod :: string
  Intn :: "int \<Rightarrow> int"
  otherCallers :: "dns_cache \<Rightarrow> dns_cache"

type_synonym resolution = "(failure + HostPortAddr) \<times> dns_cache \<times> resolver_event list"

text \<open>\<^verbatim>\<open>ClearResolveCache\<close> (under the lock): the counter is left as it is.\<close>

definition ClearResolveCache :: "dns_cache \<Rightarrow> dns_cache" where
  "ClearResolveCache c = c\<lparr>dnsHost := [], dnsAddrs := []\<rparr>"

text \<open>
  \<^verbatim>\<open>checkCache\<close>: on a miss the lock stays locked and the results are the zero
  values; on a hit the index is computed by the \<^verbatim>\<open>uint32\<close> remainder, which
  panics on a zero divisor, the counter is incremented, the address is read, and the lock
  is released.
\<close>

definition checkCache ::
  "string \<Rightarrow> dns_cache \<Rightarrow> (panic + bool \<times> 32 word \<times> ip) \<times> dns_cache \<times> resolver_event list" where
  "checkCache host c =
     (if host \<noteq> dnsHost c then (Inr (False, 0, []), c, [Lock])
      else
        (let n = (of_nat (length (dnsAddrs c)) :: 32 word) in
         if n = 0 then (Inl DivideByZero, c, [Lock])
         else
           (let idx = dnsRoundRobin c mod n;
                c' = c\<lparr>dnsRoundRobin := dnsRoundRobin c + 1\<rparr>
            in if unat idx < length (dnsAddrs c)
               then (Inr (True, idx, dnsAddrs c ! unat idx), c', [Lock, Unlock])
               else (Inl IndexOutOfRange, c', [Lock]))))"

text \<open>The statement \<^verbatim>\<open>dest.IP = addrs[idx]\<close> and the return that follows it.\<close>

definition pickAddr :: "ip list \<Rightarrow> 32 word \<Rightarrow> int \<Rightarrow> failure + HostPortAddr" where
  "pickAddr addrs idx p =
     (if unat idx < length addrs then Inr \<lparr>IP = addrs ! unat idx, Port = p\<rparr>
      else Inl (Panicked IndexOutOfRange))"

text \<open>
  The part of \<^verbatim>\<open>ResolveByProto\<close> after a successful host lookup: the choice of the
  index by \<^verbatim>\<open>dnsMethod\<close>, made only when there is more than one address.
\<close>

definition chooseAddr :: "resolver_env \<Rightarrow> string \<Rightarrow> int \<Rightarrow> ip list \<Rightarrow> dns_cache \<Rightarrow> resolution" where
  "chooseAddr env host p addrs c =
     (let l = (of_nat (length addrs) :: 32 word); dnsMethod = FlagResolveMethod env in
      if l > 1 then
        (if dnsMethod = ''cached-rr'' then
           (case checkCache host c of
              (Inl pn, c1, ev) \<Rightarrow> (Inl (Panicked pn), c1, ev)
            | (Inr (inCache, idx, res), c1, ev) \<Rightarrow>
                if inCache then (Inr \<lparr>IP = res, Port = p\<rparr>, c1, ev)
                else (pickAddr addrs 0 p,
                      \<lparr>dnsHost = host, dnsAddrs = addrs, dnsRoundRobin = 1\<rparr>,
                      ev @ [Unlock]))
         else if dnsMethod = ''rr'' then
           (pickAddr addrs (dnsRoundRobin c mod l) p,
            c\<lparr>dnsRoundRobin := dnsRoundRobin c + 1\<rparr>, [])
         else if dnsMethod = ''first'' then (pickAddr addrs 0 p, c, [])
         else if dnsMethod = ''rnd'' then (pickAddr addrs (word_of_int (Intn env (uint l))) p, c, [])
         else (pickAddr addrs 0 p, c, []))
      else (pickAddr addrs 0 p, c, []))"

text \<open>The host lookup itself; the cache it continues with is the one the other
  goroutines have left.\<close>

definition lookupHost ::
  "resolver_env \<Rightarrow> string \<Rightarrow> int \<Rightarrow> dns_cache \<Rightarrow> resolver_event list \<Rightarrow> resolution" where
  "lookupHost env host p c evs =
     (let filter = FlagResolveIPType env; c0 = otherCallers env c in
      case LookupIP env filter host of
        Inl err \<Rightarrow> (Inl (Failed err), c0, evs @ [HostLookup filter host])
      | Inr addrs \<Rightarrow>
          (case chooseAddr env host p addrs c0 of
             (r, c', ev) \<Rightarrow> (r, c', evs @ [HostLookup filter host] @ ev)))"

definition stripBrackets :: "string \<Rightarrow> string" where
  "stripBrackets host =
     (if HasPrefix host ''['' \<and> HasSuffix host '']'' then butlast (tl host) else host)"

definition ResolveByProto ::
  "resolver_env \<Rightarrow> string \<Rightarrow> string \<Rightarrow> string \<Rightarrow> dns_cache \<Rightarrow> resolution" where
  "ResolveByProto env host0 port proto c =
     (let host = stripBrackets host0 in
      case LookupPort env proto port of
        Inl err \<Rightarrow> (Inl (Failed err), c, [PortLookup proto port])
      | Inr p \<Rightarrow>
          (case ParseIP env host of
             Some isAddr \<Rightarrow> (Inr \<lparr>IP = isAddr, Port = p\<rparr>, c, [PortLookup proto port])
           | None \<Rightarrow>
               if FlagResolveMethod env = ''cached-rr'' then
                 (case checkCache host c of
                    (Inl pn, c1, ev) \<Rightarrow> (Inl (Panicked pn), c1, PortLookup proto port # ev)
                  | (Inr (inCache, idx, res), c1, ev) \<Rightarrow>
                      if inCache then (Inr \<lparr>IP = res, Port = p\<rparr>, c1, PortLookup proto port # ev)
                      else lookupHost env host p c1 (PortLookup proto port # ev @ [Unlock]))
               else lookupHost env host p c [PortLookup proto port]))"

text \<open>\<^verbatim>\<open>ResolveDestinationInternal\<close>; the texts of its two own errors are
  shortened. The slice \<^verbatim>\<open>expected[:3]\<close> panics on a shorter string.\<close>

definition ResolveDestinationInternal ::
  "resolver_env \<Rightarrow> string \<Rightarrow> string \<Rightarrow> string \<Rightarrow> dns_cache \<Rightarrow> resolution" where
  "ResolveDestinationInternal env dest0 expected unexpected c =
     (if HasPrefix dest0 unexpected
      then (Inl (Failed (GoError False False ''unexpected protocol prefix'')), c, [])
      else
        (let dest = (if HasPrefix dest0 expected
                     then TrimSuffix (drop (length expected) dest0) ''/'' else dest0)
         in case LastIndex dest CHR '':'' of
              None \<Rightarrow> (Inl (Failed (GoError False False ''not host:port format'')), c, [])
            | Some i \<Rightarrow>
                if length expected < 3 then (Inl (Panicked SliceBoundsOutOfRange), c, [])
                else ResolveByProto env (take i dest) (drop (Suc i) dest) (take 3 expected) c))"

definition TCPResolveDestination :: "resolver_env \<Rightarrow> string \<Rightarrow> dns_cache \<Rightarrow> resolution" where
  "TCPResolveDestination env dest c = ResolveDestinationInternal env dest ''tcp://'' ''udp://'' c"

definition UDPResolveDestination :: "resolver_env \<Rightarrow> string \<Rightarrow> dns_cache \<Rightarrow> resolution" where
  "UDPResolveDestination env dest c = ResolveDestinationInternal env dest ''udp://'' ''tcp://'' c"

text \<open>A number of resolutions of the same destination, one after the other.\<close>

fun resolveRepeatedly ::
  "resolver_env \<Rightarrow> string \<Rightarrow> string \<Rightarrow> string \<Rightarrow> nat \<Rightarrow> dns_cache
     \<Rightarrow> (failure + HostPortAddr) list \<times> dns_cache" where
  "resolveRepeatedly env host port proto 0 c = ([], c)"
| "resolveRepeatedly env host port proto (Suc n) c =
     (case ResolveByProto env host port proto c of
        (r, c', ev) \<Rightarrow>
          (case resolveRepeatedly env host port proto n c' of
             (rs, c'') \<Rightarrow> (r # rs, c'')))"

text \<open>
  A small environment for concrete runs: the ports 80 and 8080 and the service name
  http, every other port unknown; the literal addresses 127.0.0.1 (in the 16-byte form
  that \<^verbatim>\<open>net.ParseIP\<close> gives) and ::1; a host with one address and a host with
  three; the default flags; no other goroutine.
\<close>

definition example_env :: resolver_env where
  "example_env =
     \<lparr>LookupPort = (\<lambda>proto port.
          if port = ''80'' then Inr 80 else if port = ''8080'' then Inr 8080
          else if port = ''http'' then Inr 80
          else Inl (GoError False False ''unknown port'')),
      ParseIP = (\<lambda>s.
          if s = ''127.0.0.1'' then Some [0, 0, 0, 0, 0, 0, 0, 0, 0, 0, 255, 255, 127, 0, 0, 1]
          else if s = ''::1'' then Some [0, 0, 0, 0, 0, 0, 0, 0, 0, 0, 0, 0, 0, 0, 0, 1]
          else None),
      LookupIP = (\<lambda>filter host.
          if host = ''one.example'' then Inr [[10, 0, 0, 1]]
          else if host = ''three.example'' then Inr [[10, 0, 0, 1], [10, 0, 0, 2], [10, 0, 0, 3]]
          else Inl (GoError False False ''no such host'')),
      FlagResolveIPType = ''ip4'',
      FlagResolveMethod = ''cached-rr'',
      Intn = (\<lambda>n. 0),
      otherCallers = (\<lambda>c. c)\<rparr>"

subsection \<open>The Copy loop\<close>

text \<open>
  A reader is given by the results of its successive \<^verbatim>\<open>Read\<close> calls: the bytes
  delivered into the buffer (\<^verbatim>\<open>nr\<close> is their number) and the error. A writer is a
  function from its state and the bytes offered to the pair \<^verbatim>\<open>(nw, ew)\<close> it
  reports and its next state.
\<close>

type_synonym read_result = "byte list \<times> error option"

type_synonym 'w write_fun = "'w \<Rightarrow> byte list \<Rightarrow> (int \<times> error option) \<times> 'w"

text \<open>What \<^verbatim>\<open>Copy\<close> returns (\<^verbatim>\<open>written\<close> and \<^verbatim>\<open>err\<close>, here \<open>error_of\<close>), the writer it leaves
  behind and the severities of its log calls, in order.\<close>

record 'w copy_result =
  written :: int
  error_of :: "error option"
  dst :: 'w
  logged :: "log_level list"

text \<open>
  The body of the loop up to the test of the read error: nothing when no byte was read,
  otherwise the write, the count, and the two reasons to leave the loop. The first
  component is the error the loop breaks with, if it breaks here.
\<close>

definition writeRead ::
  "'w write_fun \<Rightarrow> byte list \<Rightarrow> 'w \<Rightarrow> int \<Rightarrow> log_level list
     \<Rightarrow> error option \<times> 'w \<times> int \<times> log_level list" where
  "writeRead wr data w n lg =
     (let nr = int (length data) in
      if nr > 0 then
        (case wr w data of
           ((nw, ew), w') \<Rightarrow>
             (let lg' = lg @ [LogDebug];
                  n' = (if nw > 0 then n + nw else n)
              in case ew of
                   Some e \<Rightarrow> (Some e, w', n', lg' @ [LogError])
                 | None \<Rightarrow>
                     if nr \<noteq> nw then (Some ErrShortWrite, w', n', lg')
                     else (None, w', n', lg')))
      else (None, w, n, lg))"

text \<open>The test of a read error: the error to return and the log call made.\<close>

definition readError :: "error \<Rightarrow> error option \<times> log_level list" where
  "readError er =
     (if IsTimeout er then (Some er, [LogVerbose])
      else if \<not> IsEOF er then (Some er, [LogError])
      else (None, []))"

text \<open>
  The loop. When the described reads are used up and the loop has not ended, it would
  read again: the run has no result (\<open>None\<close>).
\<close>

fun Copy_loop ::
  "'w write_fun \<Rightarrow> read_result list \<Rightarrow> 'w \<Rightarrow> int \<Rightarrow> log_level list \<Rightarrow> 'w copy_result option" where
  "Copy_loop wr [] w n lg = None"
| "Copy_loop wr ((data, er) # rest) w n lg =
     (case writeRead wr data w n (lg @ [LogDebug]) of
        (Some e, w', n', lg') \<Rightarrow> Some \<lparr>written = n', error_of = Some e, dst = w', logged = lg'\<rparr>
      | (None, w', n', lg') \<Rightarrow>
          (case er of
             None \<Rightarrow> Copy_loop wr rest w' n' lg'
           | Some e \<Rightarrow>
               (case readError e of
                  (r, l) \<Rightarrow> Some \<lparr>written = n', error_of = r, dst = w', logged = lg' @ l\<rparr>)))"

definition Copy :: "'w write_fun \<Rightarrow> read_result list \<Rightarrow> 'w \<Rightarrow> 'w copy_result option" where
  "Copy wr reads w = Copy_loop wr reads w 0 []"

text \<open>
  For the statements about a run: the writer takes every chunk of \<open>ds\<close> in full and
  without error (empty chunks are not written); the writer after these writes; the log of
  these iterations.
\<close>

fun accepted :: "'w write_fun \<Rightarrow> 'w \<Rightarrow> byte list list \<Rightarrow> bool" where
  "accepted wr w [] = True"
| "accepted wr w (d # ds) =
     (if d = [] then accepted wr w ds
      else fst (wr w d) = (int (length d), None) \<and> accepted wr (snd (wr w d)) ds)"

fun afterWrites :: "'w write_fun \<Rightarrow> 'w \<Rightarrow> byte list list \<Rightarrow> 'w" where
  "afterWrites wr w [] = w"
| "afterWrites wr w (d # ds) =
     (if d = [] then afterWrites wr w ds else afterWrites wr (snd (wr w d)) ds)"

fun debugLog :: "byte list list \<Rightarrow> log_level list" where
  "debugLog [] = []"
| "debugLog (d # ds) = (if d = [] then [LogDebug] else [LogDebug, LogDebug]) @ debugLog ds"

text \<open>Two writers for concrete runs: one that stores all it is given, and one that
  takes nothing and reports an error.\<close>

definition bufferWrite :: "byte list write_fun" where
  "bufferWrite w data = ((int (length data), None), w @ data)"

definition brokenWrite :: "unit write_fun" where
  "brokenWrite w data = ((0, Some (GoError False False ''broken pipe'')), w)"

text \<open>A writer that takes all but the last byte and reports no error.\<close>

definition shortWrite :: "unit write_fun" where
  "shortWrite w data = ((int (length data) - 1, None), w)"

subsection \<open>The netcat bridge\<close>

definition UDPPrefix :: string where
  "UDPPrefix = ''udp://''"

text \<open>
  The session's surroundings: the results of dialing, what the socket delivers and how it
  takes writes, the input stream, the output stream, and, for a call with
  \<^verbatim>\<open>stopOnEOF\<close>, whether the upload goroutine had stored its error when the
  calling path read it.
\<close>

record ('s, 'o) netcat_io =
  DialTCP :: "HostPortAddr \<Rightarrow> error option"
  DialUDP :: "HostPortAddr \<Rightarrow> error option"
  sockReads :: "read_result list"
  sockWrite :: "'s write_fun"
  sock0 :: 's
  inReads :: "read_result list"
  outWrite :: "'o write_fun"
  out0 :: 'o
  uploadDone :: bool

datatype netcat_result = Returned "error option" | Panics panic | NeverReturns

text \<open>The last lines of the TCP path: \<^verbatim>\<open>re\<close> if it is not nil, else
  \<^verbatim>\<open>we\<close> if it is not nil, else nil.\<close>

definition returnErrors :: "error option \<Rightarrow> error option \<Rightarrow> error option" where
  "returnErrors re we =
     (case re of Some e \<Rightarrow> Some e | None \<Rightarrow> (case we of Some e \<Rightarrow> Some e | None \<Rightarrow> None))"

text \<open>\<^verbatim>\<open>UDPNetCat\<close>: the download pump is the goroutine, the upload runs on the
  calling path, and the value returned is the variable \<^verbatim>\<open>err\<close> of the dial.\<close>

definition UDPNetCat ::
  "resolver_env \<Rightarrow> ('s, 'o) netcat_io \<Rightarrow> string \<Rightarrow> bool \<Rightarrow> dns_cache \<Rightarrow> netcat_result" where
  "UDPNetCat env io dest stopOnEOF c =
     (case fst (UDPResolveDestination env dest c) of
        Inl (Panicked pn) \<Rightarrow> Panics pn
      | Inl (Failed e) \<Rightarrow> Returned (Some e)
      | Inr a \<Rightarrow>
          (let err = DialUDP io a in
           if err \<noteq> None then Returned err
           else
             (case Copy (sockWrite io) (inReads io) (sock0 io) of
                None \<Rightarrow> NeverReturns
              | Some up \<Rightarrow>
                  (case Copy (outWrite io) (sockReads io) (out0 io) of
                     None \<Rightarrow> NeverReturns
                   | Some down \<Rightarrow> Returned err))))"

text \<open>\<^verbatim>\<open>NetCat\<close>: the upload pump is the goroutine; the calling path waits for it
  only without \<^verbatim>\<open>stopOnEOF\<close>.\<close>

definition NetCat ::
  "resolver_env \<Rightarrow> ('s, 'o) netcat_io \<Rightarrow> string \<Rightarrow> bool \<Rightarrow> dns_cache \<Rightarrow> netcat_result" where
  "NetCat env io dest stopOnEOF c =
     (if HasPrefix dest UDPPrefix then UDPNetCat env io dest stopOnEOF c
      else
        (case fst (TCPResolveDestination env dest c) of
           Inl (Panicked pn) \<Rightarrow> Panics pn
         | Inl (Failed e) \<Rightarrow> Returned (Some e)
         | Inr a \<Rightarrow>
             (case DialTCP io a of
                Some e \<Rightarrow> Returned (Some e)
              | None \<Rightarrow>
                  (case Copy (outWrite io) (sockReads io) (out0 io) of
                     None \<Rightarrow> NeverReturns
                   | Some down \<Rightarrow>
                       (case Copy (sockWrite io) (inReads io) (sock0 io) of
                          None \<Rightarrow> if stopOnEOF then Returned (returnErrors (error_of down) None)
                                  else NeverReturns
                        | Some up \<Rightarrow>
                            if stopOnEOF \<and> \<not> uploadDone io
                            then Returned (returnErrors (error_of down) None)
                            else Returned (returnErrors (error_of down) (error_of up)))))))"

text \<open>A session for concrete runs: both dials succeed, the socket takes all writes and
  delivers one reply before its read times out, the input is three bytes and then ends.\<close>

definition example_io :: "(byte list, byte list) netcat_io" where
  "example_io =
     \<lparr>DialTCP = (\<lambda>a. None), DialUDP = (\<lambda>a. None),
      sockReads = [([7, 8], None), ([], Some (GoError True False ''i/o timeout''))],
      sockWrite = bufferWrite, sock0 = [],
      inReads = [([1, 2, 3], None), ([], Some EOF)],
      outWrite = bufferWrite, out0 = [],
      uploadDone = True\<rparr>"

subsection \<open>The proxy\<close>

type_synonym conn = nat

text \<open>What the handler and the accept loop do to connections and to the log. A
  \<open>Transfer\<close> is one direction of the relay (the function \<^verbatim>\<open>transfer\<close>, which
  copies with the standard library's \<^verbatim>\<open>io.Copy\<close> and then half-closes).\<close>

datatype proxy_event =
  ErrorLogged error | CriticalLogged error | Transfer conn conn | Closed conn

text \<open>\<^verbatim>\<open>handleProxyRequest\<close>; \<open>dial a conn\<close> is the result of the
  \<^verbatim>\<open>net.Dial\<close> made for the inbound connection \<open>conn\<close>.\<close>

definition handleProxyRequest ::
  "(HostPortAddr \<Rightarrow> conn \<Rightarrow> error + conn) \<Rightarrow> conn \<Rightarrow> HostPortAddr option \<Rightarrow> proxy_event list" where
  "handleProxyRequest dial conn dest =
     (case (case dest of None \<Rightarrow> Inl ErrNilDestination | Some a \<Rightarrow> dial a conn) of
        Inl e \<Rightarrow> [ErrorLogged e, Closed conn]
      | Inr d \<Rightarrow> [Transfer conn d, Transfer d conn, Closed d, Closed conn])"

text \<open>The accept loop of \<^verbatim>\<open>Proxy\<close> over the results of its successive
  \<^verbatim>\<open>Accept\<close> calls, the handlers taken one after the other.\<close>

fun acceptLoop ::
  "(HostPortAddr \<Rightarrow> conn \<Rightarrow> error + conn) \<Rightarrow> HostPortAddr option \<Rightarrow> (error + conn) list
     \<Rightarrow> proxy_event list" where
  "acceptLoop dial dest [] = []"
| "acceptLoop dial dest (Inl e # rest) = CriticalLogged e # acceptLoop dial dest rest"
| "acceptLoop dial dest (Inr conn # rest) =
     handleProxyRequest dial conn dest @ acceptLoop dial dest rest"

text \<open>\<^verbatim>\<open>Proxy\<close>: without a listener nothing is served.\<close>

definition Proxy ::
  "bool \<Rightarrow> (HostPortAddr \<Rightarrow> conn \<Rightarrow> error + conn) \<Rightarrow> HostPortAddr option \<Rightarrow> (error + conn) list
     \<Rightarrow> proxy_event list" where
  "Proxy listening dial dest accepts = (if listening then acceptLoop dial dest accepts else [])"

section \<open>Properties\<close>

subsection \<open>Payload clamping\<close>

lemma ValidatePayloadSize_clamp:
  "0 \<le> MaxPayloadSize st \<Longrightarrow>
   fst (ValidatePayloadSize st sz) =
     (if sz < 0 then 0 else if MaxPayloadSize st < sz then MaxPayloadSize st else sz)"
  by (simp add: ValidatePayloadSize_def)

lemma GeneratePayload_1024:
  "GeneratePayload (ChangeMaxPayloadSize rnd 1024) fs [] 2000 [] = Inr (map rnd [0..<1024])"
  by (simp add: GeneratePayload_def GenerateRandomPayload_def
      ValidatePayloadSize_def ChangeMaxPayloadSize_def)

lemma GeneratePayload_file:
  "path \<noteq> [] \<Longrightarrow>
   GeneratePayload st fs path sz lit = (case fs path of Inl err \<Rightarrow> Inr [] | Inr contents \<Rightarrow> Inr contents)"
  by (simp add: GeneratePayload_def ReadFileForPayload_def split: sum.splits)

text \<open>
  C8. With the maximum configured to 1024 (through \<^verbatim>\<open>ChangeMaxPayloadSize\<close>),
  \<^verbatim>\<open>GeneratePayload("", 2000, "")\<close> returns exactly 1024 bytes and
  \<^verbatim>\<open>GeneratePayload("", -5, "")\<close> returns no byte. Whenever a file path is given
  it decides the result, whatever the size: the file's contents when the file can be
  read, nothing when it cannot. \<^verbatim>\<open>ValidatePayloadSize\<close> is a total function
  that maps every negative size to 0 and every size above the maximum to the maximum,
  and leaves the other sizes alone (the maximum is not negative:
  \<^verbatim>\<open>ChangeMaxPayloadSize\<close> never stores a negative one).
\<close>

theorem payload_clamping:
  assumes "path \<noteq> []" and "0 \<le> MaxPayloadSize st'"
  shows "(\<exists>p. GeneratePayload (ChangeMaxPayloadSize rnd 1024) fs [] 2000 [] = Inr p \<and> length p = 1024)
       \<and> GeneratePayload (ChangeMaxPayloadSize rnd 1024) fs [] (-5) [] = Inr []
       \<and> GeneratePayload st fs path sz lit
           = (case fs path of Inl err \<Rightarrow> Inr [] | Inr contents \<Rightarrow> Inr contents)
       \<and> fst (ValidatePayloadSize st' sz)
           = (if sz < 0 then 0 else if MaxPayloadSize st' < sz then MaxPayloadSize st' else sz)"
proof -
  have a: "\<exists>p. GeneratePayload (ChangeMaxPayloadSize rnd 1024) fs [] 2000 [] = Inr p \<and> length p = 1024"
    by (simp add: GeneratePayload_1024)
  have b: "GeneratePayload (ChangeMaxPayloadSize rnd 1024) fs [] (-5) [] = Inr []"
    by (simp add: GeneratePayload_def)
  have c: "GeneratePayload st fs path sz lit
             = (case fs path of Inl err \<Rightarrow> Inr [] | Inr contents \<Rightarrow> Inr contents)"
    using assms(1) by (rule GeneratePayload_file)
  from assms(2) have d: "fst (ValidatePayloadSize st' sz)
           = (if sz < 0 then 0 else if MaxPayloadSize st' < sz then MaxPayloadSize st' else sz)"
    by (rule ValidatePayloadSize_clamp)
  from a b c d show ?thesis by blast
qed

theorem payload_clamping_witness:
  "''/tmp/body'' \<noteq> [] \<and> 0 \<le> MaxPayloadSize (ChangeMaxPayloadSize (\<lambda>i. 0) 1024)
   \<and> GeneratePayload (ChangeMaxPayloadSize (\<lambda>i. 0) 1024) (\<lambda>p. Inr [1, 2, 3]) ''/tmp/body'' 2000 []
       = Inr [1, 2, 3]
   \<and> fst (ValidatePayloadSize (ChangeMaxPayloadSize (\<lambda>i. 0) 1024) 2000) = 1024"
proof -
  have h1: "''/tmp/body'' \<noteq> []" by simp
  have h2: "0 \<le> MaxPayloadSize (ChangeMaxPayloadSize (\<lambda>i. 0) 1024)"
    by (simp add: ChangeMaxPayloadSize_def)
  have m: "MaxPayloadSize (ChangeMaxPayloadSize (\<lambda>i. 0) 1024) = 1024"
    by (simp add: ChangeMaxPayloadSize_def)
  from payload_clamping [OF h1 h2, where rnd = "\<lambda>i. 0" and fs = "\<lambda>p. Inr [1, 2, 3]"
      and st = "ChangeMaxPayloadSize (\<lambda>i. 0) 1024" and sz = 2000 and lit = "[]"]
  show ?thesis using h1 h2 by (simp add: m)
qed

subsection \<open>The cache on a miss and on a hit\<close>

lemmas resolve_defs = ResolveByProto_def checkCache_def lookupHost_def chooseAddr_def pickAddr_def

lemma unat_of_nat32: "n < 2 ^ 32 \<Longrightarrow> unat (of_nat n :: 32 word) = n"
  by (simp add: unat_of_nat)

lemma of_nat32_eq_0:
  assumes "n < 2 ^ 32"
  shows "(of_nat n :: 32 word) = 0 \<longleftrightarrow> n = 0"
proof
  assume "(of_nat n :: 32 word) = 0"
  then have "unat (of_nat n :: 32 word) = 0" by simp
  with unat_of_nat32 [OF assms] show "n = 0" by simp
next
  assume "n = 0"
  then show "(of_nat n :: 32 word) = 0" by simp
qed

lemma of_nat32_gt_1: "n < 2 ^ 32 \<Longrightarrow> (1 :: 32 word) < of_nat n \<longleftrightarrow> 1 < n"
  by (simp add: word_less_nat_alt unat_of_nat32)

lemma unat_mod_of_nat32:
  "n < 2 ^ 32 \<Longrightarrow> unat ((w :: 32 word) mod of_nat n) = unat w mod n"
  by (simp add: unat_mod unat_of_nat32)

lemma stripBrackets_bracketed: "stripBrackets (''['' @ h @ '']'') = h"
  by (simp add: stripBrackets_def HasPrefix_def HasSuffix_def butlast_append)

lemma ResolveByProto_hit:
  assumes "LookupPort env proto port = Inr p"
    and "ParseIP env (stripBrackets host) = None"
    and "FlagResolveMethod env = ''cached-rr''"
    and "dnsHost c = stripBrackets host"
    and "0 < length (dnsAddrs c)" and "length (dnsAddrs c) < 2 ^ 32"
  shows "ResolveByProto env host port proto c =
           (Inr \<lparr>IP = dnsAddrs c ! (unat (dnsRoundRobin c) mod length (dnsAddrs c)), Port = p\<rparr>,
            c\<lparr>dnsRoundRobin := dnsRoundRobin c + 1\<rparr>,
            [PortLookup proto port, Lock, Unlock])"
  using assms
  by (simp add: ResolveByProto_def checkCache_def Let_def of_nat32_eq_0 unat_mod_of_nat32)

lemma ResolveByProto_miss:
  assumes "LookupPort env proto port = Inr p"
    and "ParseIP env (stripBrackets host) = None"
    and "FlagResolveMethod env = ''cached-rr''"
    and "dnsHost c \<noteq> stripBrackets host"
    and "LookupIP env (FlagResolveIPType env) (stripBrackets host) = Inr addrs"
    and "dnsHost (otherCallers env c) \<noteq> stripBrackets host"
    and "1 \<le> length addrs" and "length addrs < 2 ^ 32"
  shows "ResolveByProto env host port proto c =
           (Inr \<lparr>IP = addrs ! 0, Port = p\<rparr>,
            (if 2 \<le> length addrs
             then \<lparr>dnsHost = stripBrackets host, dnsAddrs = addrs, dnsRoundRobin = 1\<rparr>
             else otherCallers env c),
            [PortLookup proto port, Lock, Unlock, HostLookup (FlagResolveIPType env) (stripBrackets host)]
              @ (if 2 \<le> length addrs then [Lock, Unlock] else []))"
proof (cases "2 \<le> length addrs")
  case True
  then have "(1 :: 32 word) < of_nat (length addrs)"
    using assms(8) by (simp add: of_nat32_gt_1)
  moreover from True have "addrs \<noteq> []" by auto
  ultimately show ?thesis using True assms
    by (simp add: resolve_defs Let_def)
next
  case False
  then have "\<not> (1 :: 32 word) < of_nat (length addrs)"
    using assms(8) by (simp add: of_nat32_gt_1)
  moreover from assms(7) have "addrs \<noteq> []" by auto
  ultimately show ?thesis using False assms
    by (simp add: resolve_defs Let_def)
qed

lemma ResolveByProto_single:
  assumes "LookupPort env proto port = Inr p"
    and "ParseIP env (stripBrackets host) = None"
    and "FlagResolveMethod env = ''cached-rr''"
    and "dnsHost c \<noteq> stripBrackets host"
    and "LookupIP env (FlagResolveIPType env) (stripBrackets host) = Inr addrs"
    and "length addrs = 1"
  shows "ResolveByProto env host port proto c =
           (Inr \<lparr>IP = addrs ! 0, Port = p\<rparr>, otherCallers env c,
            [PortLookup proto port, Lock, Unlock,
             HostLookup (FlagResolveIPType env) (stripBrackets host)])"
  using assms by (simp add: resolve_defs Let_def)

text \<open>The raced miss: another caller has installed the same host during the lookup, and
  the second check is a hit on its entry.\<close>

lemma ResolveByProto_raced:
  assumes "LookupPort env proto port = Inr p"
    and "ParseIP env (stripBrackets host) = None"
    and "FlagResolveMethod env = ''cached-rr''"
    and "dnsHost c \<noteq> stripBrackets host"
    and "LookupIP env (FlagResolveIPType env) (stripBrackets host) = Inr addrs"
    and "2 \<le> length addrs" and "length addrs < 2 ^ 32"
    and "otherCallers env c = c0"
    and "dnsHost c0 = stripBrackets host"
    and "0 < length (dnsAddrs c0)" and "length (dnsAddrs c0) < 2 ^ 32"
  shows "ResolveByProto env host port proto c =
           (Inr \<lparr>IP = dnsAddrs c0 ! (unat (dnsRoundRobin c0) mod length (dnsAddrs c0)), Port = p\<rparr>,
            c0\<lparr>dnsRoundRobin := dnsRoundRobin c0 + 1\<rparr>,
            [PortLookup proto port, Lock, Unlock,
             HostLookup (FlagResolveIPType env) (stripBrackets host), Lock, Unlock])"
proof -
  from assms(6,7) have "(1 :: 32 word) < of_nat (length addrs)"
    by (simp add: of_nat32_gt_1)
  with assms show ?thesis
    by (simp add: resolve_defs Let_def of_nat32_eq_0 unat_mod_of_nat32)
qed

lemma resolveRepeatedly_hits:
  assumes "LookupPort env proto port = Inr p"
    and "ParseIP env (stripBrackets host) = None"
    and "FlagResolveMethod env = ''cached-rr''"
    and "0 < length addrs" and "length addrs < 2 ^ 32"
  shows "j + n \<le> 2 ^ 32 \<Longrightarrow>
     resolveRepeatedly env host port proto n
        \<lparr>dnsHost = stripBrackets host, dnsAddrs = addrs, dnsRoundRobin = of_nat j\<rparr>
     = (map (\<lambda>k. Inr \<lparr>IP = addrs ! (k mod length addrs), Port = p\<rparr>) [j..<j + n],
        \<lparr>dnsHost = stripBrackets host, dnsAddrs = addrs, dnsRoundRobin = of_nat (j + n)\<rparr>)"
proof (induction n arbitrary: j)
  case 0
  then show ?case by simp
next
  case (Suc n)
  let ?c = "\<lparr>dnsHost = stripBrackets host, dnsAddrs = addrs, dnsRoundRobin = of_nat j\<rparr>"
  from Suc.prems have j: "j < 2 ^ 32" by simp
  have step: "ResolveByProto env host port proto ?c =
           (Inr \<lparr>IP = addrs ! (j mod length addrs), Port = p\<rparr>,
            \<lparr>dnsHost = stripBrackets host, dnsAddrs = addrs, dnsRoundRobin = of_nat (Suc j)\<rparr>,
            [PortLookup proto port, Lock, Unlock])"
    using ResolveByProto_hit [OF assms(1-3), of ?c] assms(4,5) j
    by (simp add: unat_of_nat32)
  from Suc.prems have "Suc j + n \<le> 2 ^ 32" by simp
  note ih = Suc.IH [OF this]
  have idx: "j + Suc n = Suc j + n" by simp
  have upt: "[j..<Suc j + n] = j # [Suc j..<Suc j + n]"
    by (simp add: upt_conv_Cons)
  show ?case
    unfolding resolveRepeatedly.simps step idx upt
    by (simp only: ih prod.case list.map)
qed


lemma example_env_sel:
  "LookupPort example_env proto ''80'' = Inr 80"
  "LookupPort example_env proto ''8080'' = Inr 8080"
  "LookupPort example_env proto ''http'' = Inr 80"
  "LookupPort example_env proto ''nosuchport'' = Inl (GoError False False ''unknown port'')"
  "ParseIP example_env ''127.0.0.1'' = Some [0, 0, 0, 0, 0, 0, 0, 0, 0, 0, 255, 255, 127, 0, 0, 1]"
  "ParseIP example_env ''one.example'' = None"
  "ParseIP example_env ''three.example'' = None"
  "ParseIP example_env [] = None"
  "LookupIP example_env f ''one.example'' = Inr [[10, 0, 0, 1]]"
  "LookupIP example_env f ''three.example'' = Inr [[10, 0, 0, 1], [10, 0, 0, 2], [10, 0, 0, 3]]"
  "FlagResolveIPType example_env = ''ip4''"
  "FlagResolveMethod example_env = ''cached-rr''"
  "otherCallers example_env c = c"
  by (simp_all add: example_env_def)

lemma stripBrackets_plain:
  "stripBrackets ''127.0.0.1'' = ''127.0.0.1''"
  "stripBrackets ''one.example'' = ''one.example''"
  "stripBrackets ''three.example'' = ''three.example''"
  "stripBrackets [] = []"
  by (simp_all add: stripBrackets_def HasPrefix_def HasSuffix_def)

text \<open>
  C1 (as amended). Under the cached-rr method, for a host that is not a literal IP and
  that the cache does not hold, the resolver performs the system lookup. When the lookup
  returned at least two addresses (fewer than \<open>2\<^sup>3\<^sup>2\<close>) then, unless another caller has
  meanwhile populated the cache for the same host, it installs the host, the full
  address list and the counter value 1 in the cache and returns the address at index 0.
  When the lookup returned exactly one address, that address is returned and nothing is
  installed: the cache is left as the other callers left it.
\<close>

theorem cache_install_on_miss:
  assumes "LookupPort env proto port = Inr p"
    and "ParseIP env (stripBrackets host) = None"
    and "FlagResolveMethod env = ''cached-rr''"
    and "dnsHost c \<noteq> stripBrackets host"
    and "LookupIP env (FlagResolveIPType env) (stripBrackets host) = Inr addrs"
    and "length addrs < 2 ^ 32"
  shows "(2 \<le> length addrs \<and> dnsHost (otherCallers env c) \<noteq> stripBrackets host \<longrightarrow>
            ResolveByProto env host port proto c =
              (Inr \<lparr>IP = addrs ! 0, Port = p\<rparr>,
               \<lparr>dnsHost = stripBrackets host, dnsAddrs = addrs, dnsRoundRobin = 1\<rparr>,
               [PortLookup proto port, Lock, Unlock,
                HostLookup (FlagResolveIPType env) (stripBrackets host), Lock, Unlock]))
       \<and> (length addrs = 1 \<longrightarrow>
            ResolveByProto env host port proto c =
              (Inr \<lparr>IP = addrs ! 0, Port = p\<rparr>, otherCallers env c,
               [PortLookup proto port, Lock, Unlock,
                HostLookup (FlagResolveIPType env) (stripBrackets host)]))"
proof (intro conjI impI)
  assume "2 \<le> length addrs \<and> dnsHost (otherCallers env c) \<noteq> stripBrackets host"
  then have two: "2 \<le> length addrs"
    and other: "dnsHost (otherCallers env c) \<noteq> stripBrackets host" by simp_all
  from two have "1 \<le> length addrs" by simp
  from ResolveByProto_miss [OF assms(1-5) other this assms(6)] two
  show "ResolveByProto env host port proto c =
      (Inr \<lparr>IP = addrs ! 0, Port = p\<rparr>,
       \<lparr>dnsHost = stripBrackets host, dnsAddrs = addrs, dnsRoundRobin = 1\<rparr>,
       [PortLookup proto port, Lock, Unlock,
        HostLookup (FlagResolveIPType env) (stripBrackets host), Lock, Unlock])"
    by simp
next
  assume "length addrs = 1"
  with assms(1-5) show "ResolveByProto env host port proto c =
      (Inr \<lparr>IP = addrs ! 0, Port = p\<rparr>, otherCallers env c,
       [PortLookup proto port, Lock, Unlock,
        HostLookup (FlagResolveIPType env) (stripBrackets host)])"
    by (rule ResolveByProto_single)
qed

theorem cache_install_on_miss_witness:
  "ResolveByProto example_env ''three.example'' ''80'' ''tcp'' initial_cache =
     (Inr \<lparr>IP = [10, 0, 0, 1], Port = 80\<rparr>,
      \<lparr>dnsHost = ''three.example'', dnsAddrs = [[10, 0, 0, 1], [10, 0, 0, 2], [10, 0, 0, 3]],
       dnsRoundRobin = 1\<rparr>,
      [PortLookup ''tcp'' ''80'', Lock, Unlock, HostLookup ''ip4'' ''three.example'', Lock, Unlock])
   \<and> ResolveByProto example_env ''one.example'' ''8080'' ''tcp'' initial_cache =
     (Inr \<lparr>IP = [10, 0, 0, 1], Port = 8080\<rparr>, initial_cache,
      [PortLookup ''tcp'' ''8080'', Lock, Unlock, HostLookup ''ip4'' ''one.example''])"
  using cache_install_on_miss [of example_env "''tcp''" "''80''" 80 "''three.example''" initial_cache
      "[[10, 0, 0, 1], [10, 0, 0, 2], [10, 0, 0, 3]]"]
    cache_install_on_miss [of example_env "''tcp''" "''8080''" 8080 "''one.example''" initial_cache
      "[[10, 0, 0, 1]]"]
  by (simp add: example_env_sel stripBrackets_plain initial_cache_def)

text \<open>
  C1 as stated fails for a host with exactly one address: the address is returned, but
  the cache is not touched.
\<close>

theorem single_address_not_cached:
  "ResolveByProto example_env ''one.example'' ''80'' ''tcp'' initial_cache =
     (Inr \<lparr>IP = [10, 0, 0, 1], Port = 80\<rparr>, initial_cache,
      [PortLookup ''tcp'' ''80'', Lock, Unlock, HostLookup ''ip4'' ''one.example''])
   \<and> initial_cache \<noteq> \<lparr>dnsHost = ''one.example'', dnsAddrs = [[10, 0, 0, 1]], dnsRoundRobin = 1\<rparr>"
  by (simp add: resolve_defs example_env_sel stripBrackets_plain initial_cache_def)

subsection \<open>Literal IP addresses\<close>

text \<open>
  C2 (as amended). For a host string that is a literal IP address (optionally in
  brackets, which are stripped), the port is looked up first: when the port lookup fails,
  its error is returned; when it succeeds, the parsed IP is returned with that port.
  In both cases the only outside call is the port lookup: the system host resolver is
  not called, the lock is not taken, the cache is unchanged, and neither the cache nor
  the configured method or IP type has any influence.
\<close>

theorem literal_ip_bypass:
  assumes "ParseIP env (stripBrackets host) = Some addr"
  shows "ResolveByProto env host port proto c =
           (case LookupPort env proto port of
              Inl err \<Rightarrow> (Inl (Failed err), c, [PortLookup proto port])
            | Inr p \<Rightarrow> (Inr \<lparr>IP = addr, Port = p\<rparr>, c, [PortLookup proto port]))"
  using assms by (simp add: ResolveByProto_def split: sum.splits)

theorem literal_ip_bypass_witness:
  "ParseIP example_env (stripBrackets ''127.0.0.1'') = Some [0, 0, 0, 0, 0, 0, 0, 0, 0, 0, 255, 255, 127, 0, 0, 1]
   \<and> ResolveByProto example_env ''127.0.0.1'' ''80'' ''tcp'' initial_cache =
       (Inr \<lparr>IP = [0, 0, 0, 0, 0, 0, 0, 0, 0, 0, 255, 255, 127, 0, 0, 1], Port = 80\<rparr>, initial_cache, [PortLookup ''tcp'' ''80''])"
  using literal_ip_bypass [of example_env "''127.0.0.1''" "[0, 0, 0, 0, 0, 0, 0, 0, 0, 0, 255, 255, 127, 0, 0, 1]" "''80''" "''tcp''"
      initial_cache]
  by (simp add: example_env_sel stripBrackets_plain)

text \<open>
  C2 as stated fails for a port that does not resolve (neither a number nor a known
  service name): the literal IP is not returned.
\<close>

theorem literal_ip_port_error:
  "ParseIP example_env (stripBrackets ''127.0.0.1'') = Some [0, 0, 0, 0, 0, 0, 0, 0, 0, 0, 255, 255, 127, 0, 0, 1]
   \<and> ResolveByProto example_env ''127.0.0.1'' ''nosuchport'' ''tcp'' initial_cache =
       (Inl (Failed (GoError False False ''unknown port'')), initial_cache,
        [PortLookup ''tcp'' ''nosuchport''])"
  by (simp add: ResolveByProto_def example_env_sel stripBrackets_plain)

subsection \<open>Round robin over the cached addresses\<close>

lemma resolveRepeatedly_from_miss:
  assumes "LookupPort env proto port = Inr p"
    and "ParseIP env (stripBrackets host) = None"
    and "FlagResolveMethod env = ''cached-rr''"
    and "dnsHost c \<noteq> stripBrackets host"
    and "LookupIP env (FlagResolveIPType env) (stripBrackets host) = Inr addrs"
    and "dnsHost (otherCallers env c) \<noteq> stripBrackets host"
    and "2 \<le> length addrs" and "length addrs < 2 ^ 32"
    and "Suc m \<le> 2 ^ 32"
  shows "resolveRepeatedly env host port proto (Suc m) c =
           (map (\<lambda>k. Inr \<lparr>IP = addrs ! (k mod length addrs), Port = p\<rparr>) [0..<Suc m],
            \<lparr>dnsHost = stripBrackets host, dnsAddrs = addrs, dnsRoundRobin = of_nat (Suc m)\<rparr>)"
proof -
  let ?c1 = "\<lparr>dnsHost = stripBrackets host, dnsAddrs = addrs, dnsRoundRobin = of_nat 1\<rparr>"
  from assms(7) have pos: "0 < length addrs" and one: "1 \<le> length addrs" by auto
  have first: "ResolveByProto env host port proto c =
      (Inr \<lparr>IP = addrs ! (0 mod length addrs), Port = p\<rparr>, ?c1,
       [PortLookup proto port, Lock, Unlock, HostLookup (FlagResolveIPType env) (stripBrackets host),
        Lock, Unlock])"
    using ResolveByProto_miss [OF assms(1-6) one assms(8)] assms(7) by simp
  from assms(9) have "1 + m \<le> 2 ^ 32" by simp
  note rest = resolveRepeatedly_hits [OF assms(1-3) pos assms(8) this]
  have upt: "[0..<Suc m] = 0 # [1..<1 + m]"
    by (simp add: upt_conv_Cons del: upt_Suc)
  have idx: "of_nat (Suc m) = (of_nat (1 + m) :: 32 word)" by simp
  show ?thesis
    unfolding resolveRepeatedly.simps first upt idx
    by (simp only: rest prod.case list.map)
qed

text \<open>
  C4 (as amended). For a host with \<open>N \<ge> 2\<close> addresses (fewer than \<open>2\<^sup>3\<^sup>2\<close>) under the
  cached-rr method, the first \<open>2\<^sup>3\<^sup>2\<close> successive resolutions, starting with the
  installing one, return the addresses at the indices \<open>0, 1, 2, \<dots>\<close> modulo \<open>N\<close>, so
  that they cycle through all \<open>N\<close> entries in the order of the list before any index
  repeats: the installing call returns index 0 and sets the counter to 1, and every hit,
  at any value of the counter, returns index counter mod \<open>N\<close> and increments the
  counter, a \<^verbatim>\<open>uint32\<close> that wraps around to 0.
\<close>

theorem cached_rr_cycles:
  assumes "LookupPort env proto port = Inr p"
    and "ParseIP env (stripBrackets host) = None"
    and "FlagResolveMethod env = ''cached-rr''"
    and "dnsHost c \<noteq> stripBrackets host"
    and "LookupIP env (FlagResolveIPType env) (stripBrackets host) = Inr addrs"
    and "dnsHost (otherCallers env c) \<noteq> stripBrackets host"
    and "2 \<le> length addrs" and "length addrs < 2 ^ 32"
    and "Suc n \<le> 2 ^ 32"
  shows "resolveRepeatedly env host port proto (Suc n) c =
           (map (\<lambda>k. Inr \<lparr>IP = addrs ! (k mod length addrs), Port = p\<rparr>) [0..<Suc n],
            \<lparr>dnsHost = stripBrackets host, dnsAddrs = addrs, dnsRoundRobin = of_nat (Suc n)\<rparr>)
       \<and> fst (resolveRepeatedly env host port proto (length addrs) c) =
           map (\<lambda>a. Inr \<lparr>IP = a, Port = p\<rparr>) addrs
       \<and> ResolveByProto env host port proto
            \<lparr>dnsHost = stripBrackets host, dnsAddrs = addrs, dnsRoundRobin = counter\<rparr> =
           (Inr \<lparr>IP = addrs ! (unat counter mod length addrs), Port = p\<rparr>,
            \<lparr>dnsHost = stripBrackets host, dnsAddrs = addrs, dnsRoundRobin = counter + 1\<rparr>,
            [PortLookup proto port, Lock, Unlock])"
proof -
  from assms(7) have pos: "0 < length addrs" by auto
  note run = resolveRepeatedly_from_miss [OF assms(1-8)]
  have all: "fst (resolveRepeatedly env host port proto (length addrs) c) =
           map (\<lambda>a. Inr \<lparr>IP = a, Port = p\<rparr>) addrs"
  proof -
    from pos obtain m where len: "length addrs = Suc m" by (cases "length addrs") auto
    with assms(8) have "Suc m \<le> 2 ^ 32" by simp
    from run [OF this] have "fst (resolveRepeatedly env host port proto (length addrs) c) =
        map (\<lambda>k. Inr \<lparr>IP = addrs ! (k mod length addrs), Port = p\<rparr>) [0..<length addrs]"
      by (simp only: len fst_conv)
    also have "\<dots> = map (\<lambda>k. Inr \<lparr>IP = addrs ! k, Port = p\<rparr>) [0..<length addrs]"
      by (rule map_cong) simp_all
    also have "\<dots> = map (\<lambda>a. Inr \<lparr>IP = a, Port = p\<rparr>) (map (\<lambda>k. addrs ! k) [0..<length addrs])"
      by (simp only: map_map comp_def)
    also have "\<dots> = map (\<lambda>a. Inr \<lparr>IP = a, Port = p\<rparr>) addrs"
      by (simp only: map_nth)
    finally show ?thesis .
  qed
  let ?c = "\<lparr>dnsHost = stripBrackets host, dnsAddrs = addrs, dnsRoundRobin = counter\<rparr>"
  have hit: "ResolveByProto env host port proto ?c =
           (Inr \<lparr>IP = addrs ! (unat counter mod length addrs), Port = p\<rparr>,
            \<lparr>dnsHost = stripBrackets host, dnsAddrs = addrs, dnsRoundRobin = counter + 1\<rparr>,
            [PortLookup proto port, Lock, Unlock])"
    using ResolveByProto_hit [OF assms(1-3), of ?c] pos assms(8) by simp
  from run [OF assms(9)] all hit show ?thesis by simp
qed

theorem cached_rr_cycles_witness:
  "fst (resolveRepeatedly example_env ''three.example'' ''80'' ''tcp'' 5 initial_cache) =
     [Inr \<lparr>IP = [10, 0, 0, 1], Port = 80\<rparr>, Inr \<lparr>IP = [10, 0, 0, 2], Port = 80\<rparr>,
      Inr \<lparr>IP = [10, 0, 0, 3], Port = 80\<rparr>, Inr \<lparr>IP = [10, 0, 0, 1], Port = 80\<rparr>,
      Inr \<lparr>IP = [10, 0, 0, 2], Port = 80\<rparr>]
   \<and> snd (resolveRepeatedly example_env ''three.example'' ''80'' ''tcp'' 5 initial_cache) =
     \<lparr>dnsHost = ''three.example'', dnsAddrs = [[10, 0, 0, 1], [10, 0, 0, 2], [10, 0, 0, 3]],
      dnsRoundRobin = 5\<rparr>"
proof -
  have five: "(5::nat) = Suc 4" by simp
  have upt: "[0..<Suc 4] = [0, 1, 2, 3, 4]" by (simp add: upt_rec)
  from cached_rr_cycles [of example_env "''tcp''" "''80''" 80 "''three.example''" initial_cache
      "[[10, 0, 0, 1], [10, 0, 0, 2], [10, 0, 0, 3]]" 4]
  show ?thesis
    unfolding five upt
    by (simp add: example_env_sel stripBrackets_plain initial_cache_def)
qed

text \<open>
  C4 as stated fails when the counter wraps around: for a host with three addresses the
  call made at counter \<open>2\<^sup>3\<^sup>2 - 1\<close> returns index 0, the counter becomes 0, and the next
  call returns index 0 again, not index 1. That counter value is reached by
  \<open>2\<^sup>3\<^sup>2 - 1\<close> successive calls from the initial state.
\<close>

theorem round_robin_breaks_at_wrap:
  "snd (resolveRepeatedly example_env ''three.example'' ''80'' ''tcp'' 4294967295 initial_cache) =
     \<lparr>dnsHost = ''three.example'', dnsAddrs = [[10, 0, 0, 1], [10, 0, 0, 2], [10, 0, 0, 3]],
      dnsRoundRobin = 4294967295\<rparr>
   \<and> resolveRepeatedly example_env ''three.example'' ''80'' ''tcp'' 2
       \<lparr>dnsHost = ''three.example'', dnsAddrs = [[10, 0, 0, 1], [10, 0, 0, 2], [10, 0, 0, 3]],
        dnsRoundRobin = 4294967295\<rparr> =
     ([Inr \<lparr>IP = [10, 0, 0, 1], Port = 80\<rparr>, Inr \<lparr>IP = [10, 0, 0, 1], Port = 80\<rparr>],
      \<lparr>dnsHost = ''three.example'', dnsAddrs = [[10, 0, 0, 1], [10, 0, 0, 2], [10, 0, 0, 3]],
       dnsRoundRobin = 1\<rparr>)"
proof -
  let ?addrs = "[[10, 0, 0, 1], [10, 0, 0, 2], [10, 0, 0, 3]] :: ip list"
  have "snd (resolveRepeatedly example_env ''three.example'' ''80'' ''tcp'' (Suc 4294967294) initial_cache) =
      \<lparr>dnsHost = stripBrackets ''three.example'', dnsAddrs = ?addrs,
       dnsRoundRobin = of_nat (Suc 4294967294)\<rparr>"
    by (subst resolveRepeatedly_from_miss [where p = 80 and addrs = ?addrs])
       (simp_all add: example_env_sel stripBrackets_plain initial_cache_def)
  then have reach: "snd (resolveRepeatedly example_env ''three.example'' ''80'' ''tcp'' 4294967295 initial_cache) =
      \<lparr>dnsHost = ''three.example'', dnsAddrs = ?addrs, dnsRoundRobin = 4294967295\<rparr>"
    by (simp add: stripBrackets_plain)
  have two: "(2::nat) = Suc (Suc 0)" by simp
  have twice: "resolveRepeatedly example_env ''three.example'' ''80'' ''tcp'' 2
       \<lparr>dnsHost = ''three.example'', dnsAddrs = ?addrs, dnsRoundRobin = 4294967295\<rparr> =
     ([Inr \<lparr>IP = [10, 0, 0, 1], Port = 80\<rparr>, Inr \<lparr>IP = [10, 0, 0, 1], Port = 80\<rparr>],
      \<lparr>dnsHost = ''three.example'', dnsAddrs = ?addrs, dnsRoundRobin = 1\<rparr>)"
    unfolding two
    by (simp add: ResolveByProto_def checkCache_def example_env_sel stripBrackets_plain)
  from reach twice show ?thesis by (rule conjI)
qed

subsection \<open>A hit on the empty cache\<close>

text \<open>
  C10 does not hold of the code. In the initial state, and after
  \<^verbatim>\<open>ClearResolveCache\<close>, the cached host is the empty string and the address
  list is empty; a resolution of the empty host under cached-rr is a hit, and the index
  computation divides by zero.
\<close>

theorem empty_host_hit_panics:
  "ResolveByProto example_env [] ''80'' ''tcp'' initial_cache =
     (Inl (Panicked DivideByZero), initial_cache, [PortLookup ''tcp'' ''80'', Lock])
   \<and> ResolveByProto example_env [] ''80'' ''tcp''
       (ClearResolveCache \<lparr>dnsHost = ''three.example'',
          dnsAddrs = [[10, 0, 0, 1], [10, 0, 0, 2], [10, 0, 0, 3]], dnsRoundRobin = 7\<rparr>) =
     (Inl (Panicked DivideByZero), \<lparr>dnsHost = [], dnsAddrs = [], dnsRoundRobin = 7\<rparr>,
      [PortLookup ''tcp'' ''80'', Lock])"
  by (simp add: ResolveByProto_def checkCache_def ClearResolveCache_def example_env_sel
      stripBrackets_plain initial_cache_def)

subsection \<open>The endings of the Copy loop\<close>

lemma writeRead_empty: "writeRead wr [] w n lg = (None, w, n, lg)"
  by (simp add: writeRead_def)

lemma writeRead_accepted:
  "d \<noteq> [] \<Longrightarrow> fst (wr w d) = (int (length d), None) \<Longrightarrow>
   writeRead wr d w n lg = (None, snd (wr w d), n + int (length d), lg @ [LogDebug])"
  by (cases "wr w d") (auto simp add: writeRead_def Let_def)

lemma Copy_loop_clean:
  "accepted wr w ds \<Longrightarrow>
   Copy_loop wr (map (\<lambda>d. (d, None)) ds @ rest) w n lg =
   Copy_loop wr rest (afterWrites wr w ds) (n + int (length (concat ds))) (lg @ debugLog ds)"
proof (induction ds arbitrary: w n lg)
  case Nil
  then show ?case by simp
next
  case (Cons d ds)
  show ?case
  proof (cases "d = []")
    case True
    with Cons.prems have "accepted wr w ds" by simp
    from Cons.IH [OF this] True show ?thesis
      by (simp add: writeRead_empty)
  next
    case False
    with Cons.prems have ok: "fst (wr w d) = (int (length d), None)"
      and rest: "accepted wr (snd (wr w d)) ds" by simp_all
    have wr: "writeRead wr d w n (lg @ [LogDebug]) =
        (None, snd (wr w d), n + int (length d), (lg @ [LogDebug]) @ [LogDebug])"
      using False ok by (rule writeRead_accepted)
    from Cons.IH [OF rest] False show ?thesis
      by (simp add: wr add.assoc)
  qed
qed

lemma accepted_append:
  "accepted wr w (ds @ es) = (accepted wr w ds \<and> accepted wr (afterWrites wr w ds) es)"
  by (induction ds arbitrary: w) simp_all

lemma afterWrites_append:
  "afterWrites wr w (ds @ es) = afterWrites wr (afterWrites wr w ds) es"
  by (induction ds arbitrary: w) simp_all

lemma debugLog_append: "debugLog (ds @ es) = debugLog ds @ debugLog es"
  by (induction ds) simp_all

lemma debugLog_levels: "set (debugLog ds) \<subseteq> {LogDebug}"
  by (induction ds) auto

lemma debugLog_no_error: "LogError \<notin> set (debugLog ds)"
  using debugLog_levels [of ds] by auto

lemma Copy_loop_read_error:
  assumes "accepted wr w [data]"
  shows "Copy_loop wr ((data, Some e) # rest) w n lg =
     Some \<lparr>written = n + int (length data), error_of = fst (readError e),
           dst = afterWrites wr w [data], logged = lg @ debugLog [data] @ snd (readError e)\<rparr>"
proof (cases "data = []")
  case True
  then show ?thesis
    by (simp add: writeRead_empty split: prod.splits)
next
  case False
  with assms have ok: "fst (wr w data) = (int (length data), None)" by simp
  have wr: "writeRead wr data w n (lg @ [LogDebug]) =
      (None, snd (wr w data), n + int (length data), (lg @ [LogDebug]) @ [LogDebug])"
    using False ok by (rule writeRead_accepted)
  from False show ?thesis
    by (simp add: wr split: prod.splits)
qed

text \<open>
  C5. A run of \<^verbatim>\<open>Copy\<close> whose writes are all accepted in full and whose reader,
  after any number of reads without error, reports an error (possibly together with a
  last chunk of data) ends there, in one of three ways: a read error that is a timeout is
  returned as the error, with a verbose log entry and no error-level entry; a clean
  end-of-stream returns no error; any other read error is returned and logged at error
  severity. In all three the count returned is that of all bytes written so far, the
  last chunk included.
\<close>

theorem Copy_read_endings:
  assumes "accepted wr w (ds @ [data])"
  shows "Copy wr (map (\<lambda>d. (d, None)) ds @ (data, Some e) # rest) w =
           Some \<lparr>written = int (length (concat ds)) + int (length data),
                 error_of = (if IsTimeout e then Some e else if IsEOF e then None else Some e),
                 dst = afterWrites wr w (ds @ [data]),
                 logged = debugLog (ds @ [data])
                    @ (if IsTimeout e then [LogVerbose] else if IsEOF e then [] else [LogError])\<rparr>
       \<and> LogError \<notin> set (debugLog (ds @ [data]))"
proof -
  from assms have pre: "accepted wr w ds" and last: "accepted wr (afterWrites wr w ds) [data]"
    by (simp_all add: accepted_append)
  have "Copy wr (map (\<lambda>d. (d, None)) ds @ (data, Some e) # rest) w =
      Copy_loop wr ((data, Some e) # rest) (afterWrites wr w ds) (int (length (concat ds))) (debugLog ds)"
    unfolding Copy_def using Copy_loop_clean [OF pre, of "(data, Some e) # rest" 0 "[]"] by simp
  also have "\<dots> = Some \<lparr>written = int (length (concat ds)) + int (length data),
        error_of = fst (readError e),
        dst = afterWrites wr (afterWrites wr w ds) [data],
        logged = debugLog ds @ debugLog [data] @ snd (readError e)\<rparr>"
    by (rule Copy_loop_read_error [OF last])
  finally show ?thesis
    by (simp add: readError_def afterWrites_append debugLog_append debugLog_no_error)
qed


theorem Copy_read_endings_witness:
  "accepted bufferWrite [] ([[1, 2, 3]] @ [[4]])
   \<and> Copy bufferWrite [([1, 2, 3], None), ([4], Some EOF)] [] =
       Some \<lparr>written = 4, error_of = None, dst = [1, 2, 3, 4],
             logged = [LogDebug, LogDebug, LogDebug, LogDebug]\<rparr>
   \<and> Copy bufferWrite [([1, 2, 3], None), ([4], Some (GoError True False ''i/o timeout''))] [] =
       Some \<lparr>written = 4, error_of = Some (GoError True False ''i/o timeout''), dst = [1, 2, 3, 4],
             logged = [LogDebug, LogDebug, LogDebug, LogDebug, LogVerbose]\<rparr>
   \<and> Copy bufferWrite [([1, 2, 3], None), ([4], Some (GoError False False ''reset''))] [] =
       Some \<lparr>written = 4, error_of = Some (GoError False False ''reset''), dst = [1, 2, 3, 4],
             logged = [LogDebug, LogDebug, LogDebug, LogDebug, LogError]\<rparr>"
proof -
  have h: "accepted bufferWrite [] ([[1, 2, 3]] @ [[4]])"
    by (simp add: bufferWrite_def)
  from Copy_read_endings [OF h, of EOF "[]"]
    Copy_read_endings [OF h, of "GoError True False ''i/o timeout''" "[]"]
    Copy_read_endings [OF h, of "GoError False False ''reset''" "[]"]
  show ?thesis using h
    by (simp add: bufferWrite_def EOF_def)
qed

subsection \<open>Short writes\<close>

lemma Copy_loop_write_break:
  assumes "data \<noteq> []" and "wr w data = ((nw, ew), w')" and "nw \<noteq> int (length data)"
  shows "Copy_loop wr ((data, er) # rest) w n lg =
           Some \<lparr>written = n + (if nw > 0 then nw else 0),
                 error_of = (case ew of Some e \<Rightarrow> Some e | None \<Rightarrow> Some ErrShortWrite),
                 dst = w',
                 logged = lg @ [LogDebug, LogDebug] @ (case ew of Some e \<Rightarrow> [LogError] | None \<Rightarrow> [])\<rparr>"
  using assms by (cases ew) (simp_all add: writeRead_def)

text \<open>
  C6 (as amended). In an iteration in which the writer reports a count different from the
  number of bytes read (fewer in particular), the loop ends: with the writer's own error
  when it reported one, and with the distinct short-write error when it reported none.
\<close>

theorem Copy_short_write:
  assumes "accepted wr w ds" and "data \<noteq> []"
    and "wr (afterWrites wr w ds) data = ((nw, ew), w')"
    and "nw \<noteq> int (length data)"
  shows "Copy wr (map (\<lambda>d. (d, None)) ds @ (data, er) # rest) w =
           Some \<lparr>written = int (length (concat ds)) + (if nw > 0 then nw else 0),
                 error_of = (case ew of Some e \<Rightarrow> Some e | None \<Rightarrow> Some ErrShortWrite),
                 dst = w',
                 logged = debugLog ds @ [LogDebug, LogDebug]
                    @ (case ew of Some e \<Rightarrow> [LogError] | None \<Rightarrow> [])\<rparr>"
proof -
  have "Copy wr (map (\<lambda>d. (d, None)) ds @ (data, er) # rest) w =
      Copy_loop wr ((data, er) # rest) (afterWrites wr w ds) (int (length (concat ds))) (debugLog ds)"
    unfolding Copy_def using Copy_loop_clean [OF assms(1), of "(data, er) # rest" 0 "[]"] by simp
  also have "\<dots> = Some \<lparr>written = int (length (concat ds)) + (if nw > 0 then nw else 0),
        error_of = (case ew of Some e \<Rightarrow> Some e | None \<Rightarrow> Some ErrShortWrite),
        dst = w',
        logged = debugLog ds @ [LogDebug, LogDebug]
           @ (case ew of Some e \<Rightarrow> [LogError] | None \<Rightarrow> [])\<rparr>"
    using assms(2-4) by (rule Copy_loop_write_break)
  finally show ?thesis .
qed

theorem Copy_short_write_witness:
  "accepted shortWrite () [] \<and> [1, 2, 3] \<noteq> ([] :: byte list)
   \<and> shortWrite (afterWrites shortWrite () []) [1, 2, 3] = ((2, None), ()) \<and> (2 :: int) \<noteq> int (length [1, 2, 3 :: byte])
   \<and> Copy shortWrite [([1, 2, 3], None)] () =
       Some \<lparr>written = 2, error_of = Some ErrShortWrite, dst = (), logged = [LogDebug, LogDebug]\<rparr>"
proof -
  have h1: "accepted shortWrite () []" by simp
  have h2: "[1, 2, 3] \<noteq> ([] :: byte list)" by simp
  have h3: "shortWrite (afterWrites shortWrite () []) [1, 2, 3 :: byte] = ((2, None), ())"
    by (simp add: shortWrite_def)
  have h4: "(2 :: int) \<noteq> int (length [1, 2, 3 :: byte])" by simp
  from Copy_short_write [where wr = shortWrite and w = "()" and ds = "[]"
      and data = "[1, 2, 3]" and nw = 2 and ew = None and w' = "()" and er = None and rest = "[]"]
    h1 h2 h3 h4
  show ?thesis by simp
qed

text \<open>
  C6 as stated fails for a writer that takes fewer bytes and reports an error: its error
  is the result, not the short-write error.
\<close>

theorem short_write_with_writer_error:
  "brokenWrite () [1, 2, 3] = ((0, Some (GoError False False ''broken pipe'')), ())
   \<and> Copy brokenWrite [([1, 2, 3], None)] () =
       Some \<lparr>written = 0, error_of = Some (GoError False False ''broken pipe''), dst = (),
             logged = [LogDebug, LogDebug, LogError]\<rparr>
   \<and> GoError False False ''broken pipe'' \<noteq> ErrShortWrite"
  by (simp add: Copy_def writeRead_def brokenWrite_def ErrShortWrite_def)

subsection \<open>A proxy connection whose dial fails\<close>

lemma acceptLoop_append:
  "acceptLoop dial dest (xs @ ys) = acceptLoop dial dest xs @ acceptLoop dial dest ys"
  by (induction dial dest xs rule: acceptLoop.induct) simp_all

text \<open>
  C9. For an accepted connection, when the dial fails (for an absent destination the
  error is \<^verbatim>\<open>ErrNilDestination\<close> and nothing is dialed), the handler logs the
  error and closes the inbound connection, and does nothing else: no transfer is started.
  The accept loop goes on: the connections accepted before and after are handled as they
  would be without this one.
\<close>

theorem proxy_dial_failure:
  assumes "dest = None \<and> e = ErrNilDestination \<or> (\<exists>a. dest = Some a \<and> dial a conn = Inl e)"
  shows "handleProxyRequest dial conn dest = [ErrorLogged e, Closed conn]
       \<and> handleProxyRequest dial conn None = [ErrorLogged ErrNilDestination, Closed conn]
       \<and> Proxy True dial dest (before @ Inr conn # after) =
           Proxy True dial dest before @ [ErrorLogged e, Closed conn] @ Proxy True dial dest after"
proof -
  from assms have h: "handleProxyRequest dial conn dest = [ErrorLogged e, Closed conn]"
    by (auto simp add: handleProxyRequest_def)
  have n: "handleProxyRequest dial conn None = [ErrorLogged ErrNilDestination, Closed conn]"
    by (simp add: handleProxyRequest_def)
  have "Proxy True dial dest (before @ Inr conn # after) =
      Proxy True dial dest before @ [ErrorLogged e, Closed conn] @ Proxy True dial dest after"
    by (simp add: Proxy_def acceptLoop_append h)
  with h n show ?thesis by simp
qed

theorem proxy_dial_failure_witness:
  "Proxy True (\<lambda>a c. if c = 2 then Inl (GoError False False ''connection refused'') else Inr (c + 10))
      (Some \<lparr>IP = [127, 0, 0, 1], Port = 80\<rparr>) [Inr 1, Inr 2, Inr 3] =
     [Transfer 1 11, Transfer 11 1, Closed 11, Closed 1,
      ErrorLogged (GoError False False ''connection refused''), Closed 2,
      Transfer 3 13, Transfer 13 3, Closed 13, Closed 3]"
proof -
  let ?dial = "\<lambda>(a :: HostPortAddr) (c :: nat).
    if c = 2 then Inl (GoError False False ''connection refused'') else Inr (c + 10)"
  let ?dest = "Some \<lparr>IP = [127, 0, 0, 1], Port = 80\<rparr>"
  have h: "?dest = None \<and> GoError False False ''connection refused'' = ErrNilDestination
      \<or> (\<exists>a. ?dest = Some a \<and> ?dial a 2 = Inl (GoError False False ''connection refused''))"
    by simp
  from proxy_dial_failure [where dial = ?dial and conn = 2 and dest = ?dest
      and e = "GoError False False ''connection refused''" and before = "[Inr 1]" and after = "[Inr 3]"] h
  show ?thesis
    by (simp add: Proxy_def handleProxyRequest_def)
qed


subsection \<open>The error netcat returns\<close>

lemma HasPrefix_append: "HasPrefix (pre @ s) pre"
  by (simp add: HasPrefix_def)

text \<open>
  C3 (as amended). After a successful dial and when both pumps end, the TCP path returns
  the read-side (socket-to-out) error if there is one, otherwise the write-side
  (in-to-socket) error if there is one, otherwise no error; with
  \<^verbatim>\<open>stopOnEOF\<close> the write-side error counts only if the upload had ended by
  then. The UDP path does not return the timeout by which its download pump ends (the
  read deadline): with a clean write side and a read side that ended by a timeout, or
  without error, it returns no error.
\<close>

theorem NetCat_returned_error:
  assumes "\<not> HasPrefix dest UDPPrefix"
    and "fst (TCPResolveDestination env dest c) = Inr a"
    and "DialTCP io a = None"
    and "fst (UDPResolveDestination env (UDPPrefix @ udest) c) = Inr ua"
    and "DialUDP io ua = None"
    and "Copy (outWrite io) (sockReads io) (out0 io) = Some down"
    and "Copy (sockWrite io) (inReads io) (sock0 io) = Some up"
  shows "NetCat env io dest stopOnEOF c =
           Returned (case error_of down of
                       Some e \<Rightarrow> Some e
                     | None \<Rightarrow> if stopOnEOF \<and> \<not> uploadDone io then None else error_of up)
       \<and> (error_of up = None \<and> (case error_of down of None \<Rightarrow> True | Some e \<Rightarrow> IsTimeout e) \<longrightarrow>
            NetCat env io (UDPPrefix @ udest) stopOnEOF c = Returned None)"
proof -
  have tcp: "NetCat env io dest stopOnEOF c =
           Returned (case error_of down of
                       Some e \<Rightarrow> Some e
                     | None \<Rightarrow> if stopOnEOF \<and> \<not> uploadDone io then None else error_of up)"
    using assms(1,2,3,6,7)
    by (simp add: NetCat_def returnErrors_def split: option.splits)
  have udp: "NetCat env io (UDPPrefix @ udest) stopOnEOF c = Returned None"
    using assms(4,5,6,7)
    by (simp add: NetCat_def UDPNetCat_def HasPrefix_append)
  from tcp udp show ?thesis by simp
qed


lemma example_resolutions:
  "fst (TCPResolveDestination example_env ''127.0.0.1:80'' initial_cache) =
     Inr \<lparr>IP = [0, 0, 0, 0, 0, 0, 0, 0, 0, 0, 255, 255, 127, 0, 0, 1], Port = 80\<rparr>"
  "fst (UDPResolveDestination example_env ''udp://127.0.0.1:80'' initial_cache) =
     Inr \<lparr>IP = [0, 0, 0, 0, 0, 0, 0, 0, 0, 0, 255, 255, 127, 0, 0, 1], Port = 80\<rparr>"
  by (simp_all add: TCPResolveDestination_def UDPResolveDestination_def
      ResolveDestinationInternal_def HasPrefix_def HasSuffix_def TrimSuffix_def
      ResolveByProto_def stripBrackets_def example_env_def)

lemma example_pumps:
  "Copy (outWrite example_io) (sockReads example_io) (out0 example_io) =
     Some \<lparr>written = 2, error_of = Some (GoError True False ''i/o timeout''), dst = [7, 8],
           logged = [LogDebug, LogDebug, LogDebug, LogVerbose]\<rparr>"
  "Copy (sockWrite example_io) (inReads example_io) (sock0 example_io) =
     Some \<lparr>written = 3, error_of = None, dst = [1, 2, 3],
           logged = [LogDebug, LogDebug, LogDebug]\<rparr>"
  by (simp_all add: example_io_def Copy_def writeRead_def readError_def bufferWrite_def EOF_def)

theorem NetCat_returned_error_witness:
  "\<not> HasPrefix ''127.0.0.1:80'' UDPPrefix
   \<and> DialTCP example_io \<lparr>IP = [0, 0, 0, 0, 0, 0, 0, 0, 0, 0, 255, 255, 127, 0, 0, 1], Port = 80\<rparr> = None
   \<and> DialUDP example_io \<lparr>IP = [0, 0, 0, 0, 0, 0, 0, 0, 0, 0, 255, 255, 127, 0, 0, 1], Port = 80\<rparr> = None
   \<and> NetCat example_env example_io ''127.0.0.1:80'' False initial_cache =
       Returned (Some (GoError True False ''i/o timeout''))
   \<and> NetCat example_env example_io ''udp://127.0.0.1:80'' False initial_cache = Returned None"
proof -
  let ?a = "\<lparr>IP = [0, 0, 0, 0, 0, 0, 0, 0, 0, 0, 255, 255, 127, 0, 0, 1], Port = 80\<rparr>"
  have h1: "\<not> HasPrefix ''127.0.0.1:80'' UDPPrefix"
    by (simp add: HasPrefix_def UDPPrefix_def)
  have h3: "DialTCP example_io ?a = None" and h5: "DialUDP example_io ?a = None"
    by (simp_all add: example_io_def)
  have h4: "fst (UDPResolveDestination example_env (UDPPrefix @ ''127.0.0.1:80'') initial_cache) = Inr ?a"
    using example_resolutions(2) by (simp add: UDPPrefix_def)
  from NetCat_returned_error [OF h1 example_resolutions(1) h3 h4 h5 example_pumps, of False]
  show ?thesis using h1 h3 h5
    by (simp add: UDPPrefix_def)
qed

text \<open>
  C3 as stated fails on the UDP path: the read side ends with an error and no error is
  returned.
\<close>

theorem udp_netcat_drops_read_error:
  "Copy (outWrite example_io) (sockReads example_io) (out0 example_io) =
     Some \<lparr>written = 2, error_of = Some (GoError True False ''i/o timeout''), dst = [7, 8],
           logged = [LogDebug, LogDebug, LogDebug, LogVerbose]\<rparr>
   \<and> NetCat example_env example_io ''udp://127.0.0.1:80'' False initial_cache = Returned None"
proof -
  have "HasPrefix ''udp://127.0.0.1:80'' UDPPrefix"
    by (simp add: HasPrefix_def UDPPrefix_def)
  moreover have "DialUDP example_io \<lparr>IP = [0, 0, 0, 0, 0, 0, 0, 0, 0, 0, 255, 255, 127, 0, 0, 1], Port = 80\<rparr> = None"
    by (simp add: example_io_def)
  ultimately
  have "NetCat example_env example_io ''udp://127.0.0.1:80'' False initial_cache = Returned None"
    by (simp add: NetCat_def UDPNetCat_def example_resolutions(2) example_pumps)
  with example_pumps(1) show ?thesis by simp
qed

end
